theory Spec2Isabelle
  imports Main "HOL-Library.Char_ord" "HOL-Library.List_Lexorder" "HOL-Library.Monad_Syntax"
begin

section \<open>JavaScript values\<close>

text \<open>
  The dashboard script \<^verbatim>\<open>static/app.js\<close> works on the JSON document served by
  \<^verbatim>\<open>/state\<close>. Values are the JSON values together with \<^verbatim>\<open>undefined\<close>, which reading
  a missing property yields.

  Numbers: the script never computes with the numbers of the document; it only tests them
  (\<^verbatim>\<open>!x\<close>, \<^verbatim>\<open>x !== 0\<close>, \<^verbatim>\<open>n === 4\<close>, \<^verbatim>\<open>Number.isNaN\<close>) and prints them. A finite number
  is kept as the decimal it denotes: an integer, or \<open>Decimal m e\<close> for \<open>m / 10 ^ e\<close> with
  \<open>e > 0\<close> and \<open>m\<close> not a multiple of ten. Negative zero is identified with zero (no
  operation of the script tells them apart). Rounding to IEEE doubles is not modelled, so
  the model is that of the script on numbers of at most 15 significant digits.

  Strings are lists of characters (code units, compared by code). Objects are association
  lists of their own properties, the first binding of a key being the property; inherited
  properties of the built-in prototypes are not modelled: keys are taken not to name them.
\<close>

datatype jsnum = NaN | PosInf | NegInf | Integer int | Decimal int nat

datatype jsval =
    JUndefined
  | JNull
  | JBool bool
  | JNum jsnum
  | JStr string
  | JArr "jsval list"
  | JObj "(string \<times> jsval) list"

datatype error = TypeError | RangeError

text \<open>ToBoolean: what \<^verbatim>\<open>!x\<close>, \<^verbatim>\<open>x || y\<close>, \<^verbatim>\<open>if(x)\<close> and \<^verbatim>\<open>x ? a : b\<close> test.\<close>

fun truthy :: "jsval \<Rightarrow> bool" where
  "truthy JUndefined = False"
| "truthy JNull = False"
| "truthy (JBool b) = b"
| "truthy (JNum n) = (n \<noteq> NaN \<and> n \<noteq> Integer 0)"
| "truthy (JStr s) = (s \<noteq> [])"
| "truthy (JArr xs) = True"
| "truthy (JObj kvs) = True"

text \<open>\<^verbatim>\<open>a || b\<close> on values.\<close>

definition js_or :: "jsval \<Rightarrow> jsval \<Rightarrow> jsval" where
  "js_or a b = (if truthy a then a else b)"

section \<open>Decimal digits\<close>

definition is_digit :: "char \<Rightarrow> bool" where
  "is_digit c = (c \<in> set ''0123456789'')"

definition digit_val :: "char \<Rightarrow> nat" where
  "digit_val c = of_char c - 48"

definition digit_char :: "nat \<Rightarrow> char" where
  "digit_char n = ''0123456789'' ! n"

text \<open>The value of a string of decimal digits, as unary \<^verbatim>\<open>+\<close> gives it.\<close>

definition dec_val :: "string \<Rightarrow> nat" where
  "dec_val ds = foldl (\<lambda>a c. 10 * a + digit_val c) 0 ds"

text \<open>The last \<open>k\<close> decimal digits of \<open>n\<close>: \<open>n\<close> padded with zeros to \<open>k\<close> places when
  \<open>n < 10 ^ k\<close>.\<close>

fun pad :: "nat \<Rightarrow> nat \<Rightarrow> string" where
  "pad 0 n = []"
| "pad (Suc k) n = pad k (n div 10) @ [digit_char (n mod 10)]"

section \<open>Dates (ECMAScript, Date objects)\<close>

text \<open>
  \<^verbatim>\<open>Date.UTC\<close> and \<^verbatim>\<open>Date.prototype.toISOString\<close> as the language specification defines
  them, on integer arguments. Time values are integers (milliseconds since 1970-01-01
  UTC); \<open>None\<close> is the time value NaN of an invalid date.
\<close>

definition msPerDay :: int where
  "msPerDay = 86400000"

definition InLeapYear :: "int \<Rightarrow> bool" where
  "InLeapYear y = (y mod 4 = 0 \<and> (y mod 100 \<noteq> 0 \<or> y mod 400 = 0))"

definition DaysInYear :: "int \<Rightarrow> int" where
  "DaysInYear y = (if InLeapYear y then 366 else 365)"

definition DayFromYear :: "int \<Rightarrow> int" where
  "DayFromYear y =
     365 * (y - 1970) + (y - 1969) div 4 - (y - 1901) div 100 + (y - 1601) div 400"

text \<open>The number of days of the year before month \<open>m\<close> (0 is January).\<close>

definition DaysBeforeMonth :: "bool \<Rightarrow> int \<Rightarrow> int" where
  "DaysBeforeMonth leap m =
     (let l = (if leap then 1 else 0) in
      if m = 0 then 0 else if m = 1 then 31 else if m = 2 then 59 + l
      else if m = 3 then 90 + l else if m = 4 then 120 + l else if m = 5 then 151 + l
      else if m = 6 then 181 + l else if m = 7 then 212 + l else if m = 8 then 243 + l
      else if m = 9 then 273 + l else if m = 10 then 304 + l else 334 + l)"

definition MakeTime :: "int \<Rightarrow> int \<Rightarrow> int \<Rightarrow> int \<Rightarrow> int" where
  "MakeTime h m s ms = h * 3600000 + m * 60000 + s * 1000 + ms"

definition MakeDay :: "int \<Rightarrow> int \<Rightarrow> int \<Rightarrow> int" where
  "MakeDay year month date =
     (let ym = year + month div 12; mn = month mod 12
      in DayFromYear ym + DaysBeforeMonth (InLeapYear ym) mn + date - 1)"

definition MakeDate :: "int \<Rightarrow> int \<Rightarrow> int" where
  "MakeDate day time = day * msPerDay + time"

definition TimeClip :: "int \<Rightarrow> int option" where
  "TimeClip t = (if \<bar>t\<bar> > 8640000000000000 then None else Some t)"

text \<open>\<^verbatim>\<open>Date.UTC(year, month, date, hours, minutes, seconds)\<close>: a year from 0 to 99 stands
  for 1900 + year.\<close>

definition Date_UTC :: "int \<Rightarrow> int \<Rightarrow> int \<Rightarrow> int \<Rightarrow> int \<Rightarrow> int \<Rightarrow> int option" where
  "Date_UTC y m dt h mi s =
     (let yr = (if 0 \<le> y \<and> y \<le> 99 then 1900 + y else y)
      in TimeClip (MakeDate (MakeDay yr m dt) (MakeTime h mi s 0)))"

text \<open>A year has 365 or 366 days: the step of DayFromYear.\<close>

lemma div_succ:
  fixes x k :: int
  assumes "0 < k"
  shows "(x + 1) div k = x div k + (if (x + 1) mod k = 0 then 1 else 0)"
proof -
  define q r where "q = x div k" and "r = x mod k"
  have x: "x = q * k + r" and r: "0 \<le> r" "r < k"
    using assms by (simp_all add: q_def r_def)
  show ?thesis
  proof (cases "r + 1 = k")
    case True
    then have e: "x + 1 = (q + 1) * k" using x by (simp add: algebra_simps)
    have "(x + 1) div k = q + 1" "(x + 1) mod k = 0"
      using assms unfolding e by simp_all
    then show ?thesis unfolding q_def by simp
  next
    case False
    then have lt: "r + 1 < k" using r by simp
    have e: "x + 1 = (r + 1) + q * k" using x by simp
    have "(x + 1) div k = q" "(x + 1) mod k = r + 1"
      unfolding e using lt r assms by (simp_all add: div_pos_pos_trivial mod_pos_pos_trivial)
    then show ?thesis using r unfolding q_def by simp
  qed
qed

lemma mod_diff_multiple: "((y::int) - n * k) mod k = y mod k"
  by (metis diff_zero mod_diff_right_eq mod_mult_self2_is_0)

lemma mod_trans_0: "(k::int) dvd m \<Longrightarrow> y mod m = 0 \<Longrightarrow> y mod k = 0"
  by (metis dvd_trans mod_0_imp_dvd dvd_imp_mod_0)

lemma DayFromYear_Suc: "DayFromYear (y + 1) = DayFromYear y + DaysInYear y"
proof -
  define p4 p100 p400 where "p4 = (y mod 4 = 0)" and "p100 = (y mod 100 = 0)"
    and "p400 = (y mod 400 = 0)"
  define A B C where "A = (y - 1969) div 4" and "B = (y - 1901) div 100"
    and "C = (y - 1601) div 400"
  have a: "(y + 1 - 1969) div 4 = A + (if p4 then 1 else 0)"
    using div_succ [of 4 "y - 1969"] mod_diff_multiple [of y 492 4]
    by (simp add: algebra_simps A_def p4_def)
  have b: "(y + 1 - 1901) div 100 = B + (if p100 then 1 else 0)"
    using div_succ [of 100 "y - 1901"] mod_diff_multiple [of y 19 100]
    by (simp add: algebra_simps B_def p100_def)
  have c: "(y + 1 - 1601) div 400 = C + (if p400 then 1 else 0)"
    using div_succ [of 400 "y - 1601"] mod_diff_multiple [of y 4 400]
    by (simp add: algebra_simps C_def p400_def)
  have "(100::int) dvd 400" by simp
  then have d1: "p400 \<Longrightarrow> p100"
    unfolding p400_def p100_def by (rule mod_trans_0)
  have "(4::int) dvd 100" by simp
  then have d2: "p100 \<Longrightarrow> p4"
    unfolding p100_def p4_def by (rule mod_trans_0)
  have l: "DayFromYear (y + 1) = 365 * (y + 1 - 1970) + (A + (if p4 then 1 else 0))
      - (B + (if p100 then 1 else 0)) + (C + (if p400 then 1 else 0))"
    by (simp only: DayFromYear_def a b c)
  have r: "DayFromYear y = 365 * (y - 1970) + A - B + C"
    by (simp only: DayFromYear_def A_def B_def C_def)
  have n: "DaysInYear y = (if p4 \<and> (\<not> p100 \<or> p400) then 366 else 365)"
    by (simp only: DaysInYear_def InLeapYear_def p4_def p100_def p400_def)
  show ?thesis
    unfolding l r n using d1 d2 by auto
qed

text \<open>
  YearFromTime is the largest year whose first day is not after the day. The search
  starts from a year that is not after it (a year has at most 366 and at least 365 days)
  and walks up.
\<close>

function year_upto :: "int \<Rightarrow> int \<Rightarrow> int" where
  "year_upto y d = (if DayFromYear (y + 1) \<le> d then year_upto (y + 1) d else y)"
  by pat_completeness auto
termination
proof (relation "measure (\<lambda>(y, d). nat (d + 1 - DayFromYear (y + 1)))")
  show "wf (measure (\<lambda>(y, d). nat (d + 1 - DayFromYear (y + 1))))"
    by simp
next
  fix y d :: int
  assume "DayFromYear (y + 1) \<le> d"
  moreover have "DayFromYear (y + 1) < DayFromYear (y + 1 + 1)"
    by (simp only: DayFromYear_Suc [of "y + 1"]) (simp add: DaysInYear_def)
  ultimately show "((y + 1, d), (y, d)) \<in> measure (\<lambda>(y, d). nat (d + 1 - DayFromYear (y + 1)))"
    by simp
qed

definition YearFromDay :: "int \<Rightarrow> int" where
  "YearFromDay d = year_upto (1970 + (if 0 \<le> d then d div 366 else d div 365)) d"

text \<open>MonthFromTime (0 is January) and DateFromTime, from the day within the year.\<close>

definition MonthFromDay :: "bool \<Rightarrow> int \<Rightarrow> int" where
  "MonthFromDay leap dwy =
     (let l = (if leap then 1 else 0) in
      if dwy < 31 then 0 else if dwy < 59 + l then 1 else if dwy < 90 + l then 2
      else if dwy < 120 + l then 3 else if dwy < 151 + l then 4 else if dwy < 181 + l then 5
      else if dwy < 212 + l then 6 else if dwy < 243 + l then 7 else if dwy < 273 + l then 8
      else if dwy < 304 + l then 9 else if dwy < 334 + l then 10 else 11)"

definition DateFromDay :: "bool \<Rightarrow> int \<Rightarrow> int" where
  "DateFromDay leap dwy = dwy - DaysBeforeMonth leap (MonthFromDay leap dwy) + 1"

text \<open>
  \<^verbatim>\<open>toISOString\<close>: \<^verbatim>\<open>YYYY-MM-DDTHH:mm:ss.sssZ\<close>; a year outside 0 to 9999 is written
  with a sign and six digits; an invalid date raises RangeError.
\<close>

definition iso_year :: "int \<Rightarrow> string" where
  "iso_year y =
     (if 0 \<le> y \<and> y \<le> 9999 then pad 4 (nat y)
      else (if y < 0 then ''-'' else ''+'') @ pad 6 (nat \<bar>y\<bar>))"

definition toISOString :: "int option \<Rightarrow> error + string" where
  "toISOString tv =
     (case tv of
        None \<Rightarrow> Inl RangeError
      | Some t \<Rightarrow>
          (let day = t div msPerDay; tod = t mod msPerDay;
               y = YearFromDay day; dwy = day - DayFromYear y; leap = InLeapYear y
           in Inr (iso_year y @ ''-'' @ pad 2 (nat (MonthFromDay leap dwy + 1)) @ ''-''
                @ pad 2 (nat (DateFromDay leap dwy)) @ ''T''
                @ pad 2 (nat (tod div 3600000)) @ '':''
                @ pad 2 (nat (tod div 60000 mod 60)) @ '':''
                @ pad 2 (nat (tod div 1000 mod 60)) @ ''.''
                @ pad 3 (nat (tod mod 1000)) @ ''Z'')))"

section \<open>Strings\<close>

text \<open>\<^verbatim>\<open>s.startsWith(p)\<close>, \<^verbatim>\<open>s.endsWith(p)\<close>, and \<^verbatim>\<open>s.replace(p, r)\<close> for a string pattern
  \<open>p\<close> and a replacement without \<^verbatim>\<open>$\<close>: the first occurrence is replaced.\<close>

definition startsWith :: "string \<Rightarrow> string \<Rightarrow> bool" where
  "startsWith s p = (take (length p) s = p)"

definition endsWith :: "string \<Rightarrow> string \<Rightarrow> bool" where
  "endsWith s p = (length p \<le> length s \<and> drop (length s - length p) s = p)"

fun replace_first :: "string \<Rightarrow> string \<Rightarrow> string \<Rightarrow> string" where
  "replace_first p r [] = (if p = [] then r else [])"
| "replace_first p r (c # cs) =
     (if startsWith (c # cs) p then r @ drop (length p) (c # cs)
      else c # replace_first p r cs)"

section \<open>formatTimestamp\<close>

text \<open>
  The regular expression \<^verbatim>\<open>/^(\d{4})(\d{2})(\d{2})T(\d{2})(\d{2})(\d{2})Z$/\<close>, read from
  left to right: \<open>re_digits n\<close> is the group \<^verbatim>\<open>(\d{n})\<close>, \<open>re_lit c\<close> a literal character;
  both give the rest of the input. \<open>ts_match\<close> gives the six groups.
\<close>

definition re_digits :: "nat \<Rightarrow> string \<Rightarrow> (string \<times> string) option" where
  "re_digits n s =
     (if n \<le> length s \<and> list_all is_digit (take n s) then Some (take n s, drop n s)
      else None)"

definition re_lit :: "char \<Rightarrow> string \<Rightarrow> string option" where
  "re_lit c s = (case s of [] \<Rightarrow> None | x # xs \<Rightarrow> if x = c then Some xs else None)"

definition ts_match :: "string \<Rightarrow> (string \<times> string \<times> string \<times> string \<times> string \<times> string) option" where
  "ts_match s = do {
     (y, r1) \<leftarrow> re_digits 4 s;
     (mo, r2) \<leftarrow> re_digits 2 r1;
     (d, r3) \<leftarrow> re_digits 2 r2;
     r4 \<leftarrow> re_lit CHR ''T'' r3;
     (h, r5) \<leftarrow> re_digits 2 r4;
     (mi, r6) \<leftarrow> re_digits 2 r5;
     (se, r7) \<leftarrow> re_digits 2 r6;
     r8 \<leftarrow> re_lit CHR ''Z'' r7;
     if r8 = [] then Some (y, mo, d, h, mi, se) else None
   }"

text \<open>
  \<^verbatim>\<open>formatTimestamp(ts)\<close>. A falsy argument gives the empty string. Otherwise
  \<^verbatim>\<open>ts.match\<close> is called: a value that is not a string has no such method, and the call
  raises TypeError.
\<close>

definition formatTimestamp :: "jsval \<Rightarrow> error + jsval" where
  "formatTimestamp ts =
     (if \<not> truthy ts then Inr (JStr '''')
      else case ts of
        JStr s \<Rightarrow>
          (case ts_match s of
             Some (y, mo, d, h, mi, se) \<Rightarrow>
               (case toISOString (Date_UTC (int (dec_val y)) (int (dec_val mo) - 1)
                       (int (dec_val d)) (int (dec_val h)) (int (dec_val mi)) (int (dec_val se))) of
                  Inl e \<Rightarrow> Inl e
                | Inr str \<Rightarrow>
                    Inr (JStr (replace_first ''Z'' '' UTC'' (replace_first ''T'' '' '' str))))
           | None \<Rightarrow> Inr ts)
      | _ \<Rightarrow> Inl TypeError)"

text \<open>
  The Gregorian calendar, to say which timestamps name a real date: the length of month
  \<open>m\<close> (1 is January) and the dates of a year.
\<close>

definition DaysInMonth :: "bool \<Rightarrow> int \<Rightarrow> int" where
  "DaysInMonth leap m =
     (if m = 2 then (if leap then 29 else 28)
      else if m = 4 \<or> m = 6 \<or> m = 9 \<or> m = 11 then 30 else 31)"

definition valid_date :: "nat \<Rightarrow> nat \<Rightarrow> nat \<Rightarrow> bool" where
  "valid_date y m d =
     (1 \<le> m \<and> m \<le> 12 \<and> 1 \<le> d \<and> int d \<le> DaysInMonth (InLeapYear (int y)) (int m))"

section \<open>Numbers and strings (ECMAScript conversions)\<close>

text \<open>The decimal digits of a natural number, without leading zeros.\<close>

fun dec :: "nat \<Rightarrow> string" where
  "dec n = (if n < 10 then [digit_char n] else dec (n div 10) @ [digit_char (n mod 10)])"

text \<open>
  Number::toString. \<open>num_str ds n\<close> writes the number with significant digits \<open>ds\<close> (no
  trailing zero) and the decimal point after \<open>n\<close> digits, that is \<open>0.ds \<times> 10 ^ n\<close>: plain
  digits up to 21 places, a fraction, or the exponent form.
\<close>

definition num_str :: "string \<Rightarrow> int \<Rightarrow> string" where
  "num_str ds n =
     (let k = int (length ds) in
      if k \<le> n \<and> n \<le> 21 then ds @ replicate (nat (n - k)) CHR ''0''
      else if 0 < n \<and> n \<le> 21 then take (nat n) ds @ ''.'' @ drop (nat n) ds
      else if - 6 < n \<and> n \<le> 0 then ''0.'' @ replicate (nat (- n)) CHR ''0'' @ ds
      else (if k = 1 then ds else take 1 ds @ ''.'' @ drop 1 ds)
           @ ''e'' @ (if n - 1 < 0 then ''-'' else ''+'') @ dec (nat \<bar>n - 1\<bar>))"

text \<open>The digits of a positive integer without its trailing zeros.\<close>

definition strip_zeros :: "string \<Rightarrow> string" where
  "strip_zeros ds = rev (dropWhile (\<lambda>c. c = CHR ''0'') (rev ds))"

definition NumberToString :: "jsnum \<Rightarrow> string" where
  "NumberToString x =
     (case x of
        NaN \<Rightarrow> ''NaN''
      | PosInf \<Rightarrow> ''Infinity''
      | NegInf \<Rightarrow> ''-Infinity''
      | Integer i \<Rightarrow>
          (if i = 0 then ''0''
           else (if i < 0 then ''-'' else '''')
                @ num_str (strip_zeros (dec (nat \<bar>i\<bar>))) (int (length (dec (nat \<bar>i\<bar>)))))
      | Decimal m e \<Rightarrow>
          (if m < 0 then ''-'' else '''')
          @ num_str (dec (nat \<bar>m\<bar>)) (int (length (dec (nat \<bar>m\<bar>))) - int e))"

text \<open>
  StringToNumber, the grammar StringNumericLiteral: white space around, nothing (zero), a
  prefixed binary, octal or hexadecimal integer, or a signed decimal literal (Infinity, or
  digits with an optional fraction and exponent). Anything else is NaN. White space is the
  ASCII white space (tab, line feed, vertical tab, form feed, carriage return, space).
\<close>

definition is_space :: "char \<Rightarrow> bool" where
  "is_space c = (c \<in> set [CHR 0x09, CHR 0x0A, CHR 0x0B, CHR 0x0C, CHR 0x0D, CHR '' ''])"

definition trim :: "string \<Rightarrow> string" where
  "trim s = rev (dropWhile is_space (rev (dropWhile is_space s)))"

definition hex_val :: "char \<Rightarrow> nat option" where
  "hex_val c =
     (if is_digit c then Some (digit_val c)
      else if c \<in> set ''abcdef'' then Some (of_char c - 87)
      else if c \<in> set ''ABCDEF'' then Some (of_char c - 55)
      else None)"

text \<open>The digits of a literal in radix \<open>r\<close>: at least one, each below \<open>r\<close>.\<close>

definition radix_val :: "nat \<Rightarrow> string \<Rightarrow> nat option" where
  "radix_val r ds =
     (if ds \<noteq> [] \<and> list_all (\<lambda>c. case hex_val c of None \<Rightarrow> False | Some v \<Rightarrow> v < r) ds
      then Some (foldl (\<lambda>a c. r * a + the (hex_val c)) 0 ds)
      else None)"

text \<open>The number \<open>m \<times> 10 ^ e\<close> for \<open>m > 0\<close>: trailing zeros of \<open>m\<close> go into the exponent.\<close>

fun strip10 :: "nat \<Rightarrow> int \<Rightarrow> nat \<times> int" where
  "strip10 m e = (if m \<noteq> 0 \<and> m mod 10 = 0 then strip10 (m div 10) (e + 1) else (m, e))"

definition mk_num :: "bool \<Rightarrow> nat \<Rightarrow> int \<Rightarrow> jsnum" where
  "mk_num neg m e =
     (if m = 0 then Integer 0
      else let (m', e') = strip10 m e; sg = (if neg then - 1 else 1) in
        if 0 \<le> e' then Integer (sg * int m' * 10 ^ nat e')
        else Decimal (sg * int m') (nat (- e')))"

text \<open>The exponent part \<^verbatim>\<open>e\<close>, sign, digits; \<open>None\<close> when it is malformed.\<close>

definition exponent_part :: "string \<Rightarrow> int option" where
  "exponent_part s =
     (case s of
        [] \<Rightarrow> Some 0
      | c # r \<Rightarrow>
          if c = CHR ''e'' \<or> c = CHR ''E'' then
            (let (neg, ds) = (case r of
                 [] \<Rightarrow> (False, [])
               | x # xs \<Rightarrow> if x = CHR ''-'' then (True, xs)
                           else if x = CHR ''+'' then (False, xs) else (False, r))
             in if ds \<noteq> [] \<and> list_all is_digit ds
                then Some (if neg then - int (dec_val ds) else int (dec_val ds))
                else None)
          else None)"

definition decimal_literal :: "bool \<Rightarrow> string \<Rightarrow> jsnum" where
  "decimal_literal neg s =
     (if s = ''Infinity'' then (if neg then NegInf else PosInf)
      else
        let ip = takeWhile is_digit s; r1 = dropWhile is_digit s;
            dot = (r1 \<noteq> [] \<and> hd r1 = CHR ''.'');
            fp = (if dot then takeWhile is_digit (tl r1) else []);
            r2 = (if dot then dropWhile is_digit (tl r1) else r1)
        in if ip = [] \<and> fp = [] then NaN
           else case exponent_part r2 of
                  None \<Rightarrow> NaN
                | Some ex \<Rightarrow> mk_num neg (dec_val (ip @ fp)) (ex - int (length fp)))"

definition StringToNumber :: "string \<Rightarrow> jsnum" where
  "StringToNumber str =
     (let s = trim str in
      if s = [] then Integer 0
      else if take 2 s = ''0x'' \<or> take 2 s = ''0X'' then
        (case radix_val 16 (drop 2 s) of None \<Rightarrow> NaN | Some v \<Rightarrow> Integer (int v))
      else if take 2 s = ''0o'' \<or> take 2 s = ''0O'' then
        (case radix_val 8 (drop 2 s) of None \<Rightarrow> NaN | Some v \<Rightarrow> Integer (int v))
      else if take 2 s = ''0b'' \<or> take 2 s = ''0B'' then
        (case radix_val 2 (drop 2 s) of None \<Rightarrow> NaN | Some v \<Rightarrow> Integer (int v))
      else if hd s = CHR ''-'' then decimal_literal True (tl s)
      else if hd s = CHR ''+'' then decimal_literal False (tl s)
      else decimal_literal False s)"

text \<open>\<^verbatim>\<open>xs.join(sep)\<close> on strings.\<close>

fun join :: "string \<Rightarrow> string list \<Rightarrow> string" where
  "join sep [] = []"
| "join sep [x] = x"
| "join sep (x # y # zs) = x @ sep @ join sep (y # zs)"

text \<open>
  \<^verbatim>\<open>String(v)\<close>: an array is its elements joined by commas, null and undefined elements
  being empty; a plain object is \<^verbatim>\<open>[object Object]\<close>.
\<close>

fun ToString :: "jsval \<Rightarrow> string" where
  "ToString JUndefined = ''undefined''"
| "ToString JNull = ''null''"
| "ToString (JBool b) = (if b then ''true'' else ''false'')"
| "ToString (JNum n) = NumberToString n"
| "ToString (JStr s) = s"
| "ToString (JArr xs) =
     join '','' (map (\<lambda>x. if x = JUndefined \<or> x = JNull then [] else ToString x) xs)"
| "ToString (JObj kvs) = ''[object Object]''"

text \<open>\<^verbatim>\<open>Number(v)\<close>: an array or object is converted through its string.\<close>

definition ToNumber :: "jsval \<Rightarrow> jsnum" where
  "ToNumber v =
     (case v of
        JUndefined \<Rightarrow> NaN
      | JNull \<Rightarrow> Integer 0
      | JBool b \<Rightarrow> Integer (if b then 1 else 0)
      | JNum n \<Rightarrow> n
      | JStr s \<Rightarrow> StringToNumber s
      | _ \<Rightarrow> StringToNumber (ToString v))"

text \<open>\<^verbatim>\<open>s.split(c)\<close> for a separator of one character.\<close>

fun split_on :: "char \<Rightarrow> string \<Rightarrow> string list" where
  "split_on c [] = [[]]"
| "split_on c (x # xs) =
     (if x = c then [] # split_on c xs
      else case split_on c xs of w # ws \<Rightarrow> (x # w) # ws | [] \<Rightarrow> [[x]])"

section \<open>formatStatusCode and formatLocationStatus\<close>

text \<open>
  \<^verbatim>\<open>formatStatusCode(code)\<close>: \<^verbatim>\<open>===\<close> compares without conversion, so only null, undefined
  and the empty string give the empty result.
\<close>

definition formatStatusCode :: "jsval \<Rightarrow> string" where
  "formatStatusCode code =
     (if code = JNull \<or> code = JUndefined \<or> code = JStr '''' then ''''
      else let n = ToNumber code in
        if n \<noteq> NaN then
          (if n = Integer 4 then ''4 - ok''
           else if n = Integer 6 then ''6 - not ok''
           else NumberToString n)
        else ToString code)"

text \<open>
  \<^verbatim>\<open>formatLocationStatus(ls)\<close>. Nothing in the \<^verbatim>\<open>try\<close> block can throw; \<^verbatim>\<open>split(' ')[1]\<close>
  is the second field, undefined when there is one field only, and \<^verbatim>\<open>||\<close> falls back
  to the whole string when it is undefined or empty.
\<close>

definition formatLocationStatus :: "jsval \<Rightarrow> string" where
  "formatLocationStatus ls =
     (if \<not> truthy ls \<and> ls \<noteq> JNum (Integer 0) then ''''
      else case ls of
        JStr s \<Rightarrow>
          (if startsWith s ''percentage '' then
             (case split_on CHR '' '' s of
                a # b # r \<Rightarrow> if b \<noteq> [] then b else s
              | _ \<Rightarrow> s)
           else ToString ls)
      | _ \<Rightarrow> ToString ls)"


section \<open>Property reads\<close>

text \<open>
  An array index is a canonical numeral: digits with no leading zero. \<open>own v k\<close> is
  \<^verbatim>\<open>v[k]\<close> for a value \<open>v\<close> that is neither null nor undefined: an own property of an
  object, an element or the length of an array, a character or the length of a string,
  and undefined otherwise. \<open>get\<close> is the read as the script performs it on a value it has
  not tested: on null and undefined it raises TypeError.
\<close>

definition array_index :: "string \<Rightarrow> nat option" where
  "array_index k =
     (if k \<noteq> [] \<and> list_all is_digit k \<and> (k = ''0'' \<or> hd k \<noteq> CHR ''0'')
      then Some (dec_val k) else None)"

definition own :: "jsval \<Rightarrow> string \<Rightarrow> jsval" where
  "own v k =
     (case v of
        JObj kvs \<Rightarrow> (case map_of kvs k of Some x \<Rightarrow> x | None \<Rightarrow> JUndefined)
      | JArr xs \<Rightarrow>
          (if k = ''length'' then JNum (Integer (int (length xs)))
           else case array_index k of
                  Some i \<Rightarrow> if i < length xs then xs ! i else JUndefined
                | None \<Rightarrow> JUndefined)
      | JStr cs \<Rightarrow>
          (if k = ''length'' then JNum (Integer (int (length cs)))
           else case array_index k of
                  Some i \<Rightarrow> if i < length cs then JStr [cs ! i] else JUndefined
                | None \<Rightarrow> JUndefined)
      | _ \<Rightarrow> JUndefined)"

definition get :: "jsval \<Rightarrow> string \<Rightarrow> error + jsval" where
  "get v k = (if v = JNull \<or> v = JUndefined then Inl TypeError else Inr (own v k))"

text \<open>
  \<^verbatim>\<open>v[n]\<close> for a number \<open>n\<close>: the element at \<open>n\<close> when \<open>n\<close> is an index of the array or
  string, and the property named by the string of \<open>n\<close> otherwise. \<open>num_pred n\<close> is
  \<^verbatim>\<open>n - 1\<close>.
\<close>

definition own_at :: "jsval \<Rightarrow> jsnum \<Rightarrow> jsval" where
  "own_at v n =
     (case (v, n) of
        (JArr xs, Integer i) \<Rightarrow>
          if 0 \<le> i \<and> i < int (length xs) then xs ! nat i else own v (NumberToString n)
      | (JStr cs, Integer i) \<Rightarrow>
          if 0 \<le> i \<and> i < int (length cs) then JStr [cs ! nat i] else own v (NumberToString n)
      | _ \<Rightarrow> own v (NumberToString n))"

definition num_pred :: "jsnum \<Rightarrow> jsnum" where
  "num_pred n =
     (case n of
        Integer i \<Rightarrow> Integer (i - 1)
      | Decimal m e \<Rightarrow> Decimal (m - 10 ^ e) e
      | _ \<Rightarrow> n)"

text \<open>
  \<^verbatim>\<open>Object.keys(v)\<close>: the own enumerable property names, index-like names first in
  ascending order, then the others in order of creation; the indices of an array or a
  string; nothing for a number or a boolean; TypeError for null and undefined.
\<close>

definition Object_keys :: "jsval \<Rightarrow> error + string list" where
  "Object_keys v =
     (case v of
        JUndefined \<Rightarrow> Inl TypeError
      | JNull \<Rightarrow> Inl TypeError
      | JObj kvs \<Rightarrow>
          (let ks = remdups (map fst kvs)
           in Inr (sort_key dec_val (filter (\<lambda>k. array_index k \<noteq> None) ks)
                   @ filter (\<lambda>k. array_index k = None) ks))
      | JArr xs \<Rightarrow> Inr (map dec [0..<length xs])
      | JStr cs \<Rightarrow> Inr (map dec [0..<length cs])
      | _ \<Rightarrow> Inr [])"

section \<open>The page\<close>

text \<open>
  The document: the content of the elements by id (\<open>None\<close>: no element has the id, and
  \<^verbatim>\<open>getElementById\<close> gives null), and the lines written by \<^verbatim>\<open>console.error\<close>. A table is
  its header texts and the cells of its body rows; a cell is its text and whether it is
  set in the monospace font.
\<close>

record cell =
  cell_text :: string
  monospace :: bool

datatype content = Markup | Table "string list" "cell list list" | Text string

record page =
  elements :: "string \<Rightarrow> content option"
  console :: "string list"

text \<open>A cell of \<^verbatim>\<open>makeTable\<close>: \<^verbatim>\<open>td.textContent = c\<close> writes the string of \<open>c\<close>.\<close>

definition td :: "jsval \<Rightarrow> cell" where
  "td c =
     (if c = JNull \<or> c = JUndefined then \<lparr>cell_text = '''', monospace = False\<rparr>
      else case c of
        JStr s \<Rightarrow> \<lparr>cell_text = s, monospace = (startsWith s ''{'' \<and> endsWith s ''}'')\<rparr>
      | _ \<Rightarrow> \<lparr>cell_text = ToString c, monospace = False\<rparr>)"

text \<open>
  \<^verbatim>\<open>makeTable(containerId, headers, rows)\<close>: the container is emptied and receives the new
  table; without a container, \<^verbatim>\<open>wrap.innerHTML = ''\<close> raises TypeError and nothing is written.
\<close>

definition makeTable :: "string \<Rightarrow> string list \<Rightarrow> jsval list list \<Rightarrow> page \<Rightarrow> error + page" where
  "makeTable containerId headers rows st =
     (case elements st containerId of
        None \<Rightarrow> Inl TypeError
      | Some old \<Rightarrow>
          Inr (st\<lparr>elements := (elements st)(containerId \<mapsto> Table headers (map (map td) rows))\<rparr>))"

section \<open>renderState\<close>

definition currentHeaders :: "string list" where
  "currentHeaders =
     [''Team'', ''Current Location'', ''Location Status'', ''Transit'', ''Status Code'', ''Updated'']"

definition histHeaders :: "string list" where
  "histHeaders =
     [''Team'', ''Timestamp'', ''Location'', ''Location Status'', ''Transit'', ''Status Code'']"

definition txHeaders :: "string list" where
  "txHeaders = [''Timestamp'', ''Dest'', ''Src'', ''Message'']"

text \<open>\<^verbatim>\<open>history.length ? history[history.length-1] : null\<close>.\<close>

definition last_event :: "jsval \<Rightarrow> jsval" where
  "last_event history =
     (let len = own history ''length''
      in if truthy len then own_at history (num_pred (ToNumber len)) else JNull)"

text \<open>
  The body of the first \<^verbatim>\<open>forEach\<close>: the row of a team in Current Status. \<open>s\<close> and \<open>locs\<close>
  are \<^verbatim>\<open>data.status_by_team || {}\<close> and \<^verbatim>\<open>data.location_by_team || {}\<close>, never null or
  undefined, and \<open>current\<close> is read only when it is truthy. formatTimestamp is called first
  and can throw.
\<close>

definition currentRow :: "jsval \<Rightarrow> jsval \<Rightarrow> string \<Rightarrow> error + jsval list" where
  "currentRow s locs team =
     (let history = js_or (own s team) (JArr []);
          current = last_event history
      in case (if truthy current then formatTimestamp (own current ''timestamp'')
               else Inr (JStr '''')) of
           Inl e \<Rightarrow> Inl e
         | Inr updated \<Rightarrow>
             Inr [JStr team,
                  js_or (own locs team) (JStr ''''),
                  if truthy current then JStr (formatLocationStatus (own current ''location_status''))
                  else JStr '''',
                  if truthy current then own current ''transit'' else JStr '''',
                  if truthy current then JStr (formatStatusCode (own current ''status_code''))
                  else JStr '''',
                  updated])"

fun currentRows :: "jsval \<Rightarrow> jsval \<Rightarrow> string list \<Rightarrow> error + jsval list list" where
  "currentRows s locs [] = Inr []"
| "currentRows s locs (team # teams) =
     (case currentRow s locs team of
        Inl e \<Rightarrow> Inl e
      | Inr row \<Rightarrow>
          (case currentRows s locs teams of
             Inl e \<Rightarrow> Inl e
           | Inr rows \<Rightarrow> Inr (row # rows)))"

text \<open>
  Status History. The row of an event: \<^verbatim>\<open>e.timestamp\<close> throws when \<open>e\<close> is null or undefined,
  and formatTimestamp can throw. The loops return the rows pushed so far and the exception,
  if any, that ended them: \<^verbatim>\<open>histRows\<close> is declared outside the \<^verbatim>\<open>try\<close> block, which
  encloses both loops. A history that is not an array has no \<^verbatim>\<open>forEach\<close>.
\<close>

definition histRow :: "string \<Rightarrow> jsval \<Rightarrow> error + jsval list" where
  "histRow team e =
     (case get e ''timestamp'' of
        Inl x \<Rightarrow> Inl x
      | Inr ts \<Rightarrow>
          (case formatTimestamp ts of
             Inl x \<Rightarrow> Inl x
           | Inr f \<Rightarrow>
               Inr [JStr team, f, own e ''location'',
                    JStr (formatLocationStatus (own e ''location_status'')),
                    own e ''transit'',
                    JStr (formatStatusCode (own e ''status_code''))]))"

fun histEvents :: "string \<Rightarrow> jsval list \<Rightarrow> jsval list list \<times> error option" where
  "histEvents team [] = ([], None)"
| "histEvents team (e # es) =
     (case histRow team e of
        Inl x \<Rightarrow> ([], Some x)
      | Inr row \<Rightarrow> (let (rows, r) = histEvents team es in (row # rows, r)))"

definition histTeam :: "jsval \<Rightarrow> string \<Rightarrow> jsval list list \<times> error option" where
  "histTeam s team =
     (case js_or (own s team) (JArr []) of
        JArr es \<Rightarrow> histEvents team es
      | _ \<Rightarrow> ([], Some TypeError))"

fun histTeams :: "jsval \<Rightarrow> string list \<Rightarrow> jsval list list \<times> error option" where
  "histTeams s [] = ([], None)"
| "histTeams s (team # teams) =
     (case histTeam s team of
        (rows, Some x) \<Rightarrow> (rows, Some x)
      | (rows, None) \<Rightarrow> (let (rows', r) = histTeams s teams in (rows @ rows', r)))"

text \<open>Transmissions: \<^verbatim>\<open>(data.transmissions||[]).map(...)\<close>.\<close>

definition txRow :: "jsval \<Rightarrow> error + jsval list" where
  "txRow t =
     (case get t ''timestamp'' of
        Inl x \<Rightarrow> Inl x
      | Inr ts \<Rightarrow>
          (case formatTimestamp ts of
             Inl x \<Rightarrow> Inl x
           | Inr f \<Rightarrow> Inr [f, own t ''dest'', own t ''src'', own t ''msg'']))"

fun txRows :: "jsval list \<Rightarrow> error + jsval list list" where
  "txRows [] = Inr []"
| "txRows (t # ts) =
     (case txRow t of
        Inl e \<Rightarrow> Inl e
      | Inr row \<Rightarrow> (case txRows ts of Inl e \<Rightarrow> Inl e | Inr rows \<Rightarrow> Inr (row # rows)))"

text \<open>
  The steps of \<^verbatim>\<open>renderState\<close>, each from the page to the new page or to the exception it
  throws. A step that throws has written nothing.
\<close>

definition renderCurrent :: "jsval \<Rightarrow> page \<Rightarrow> error + page" where
  "renderCurrent data st =
     (let s = js_or (own data ''status_by_team'') (JObj []);
          locs = js_or (own data ''location_by_team'') (JObj [])
      in case Object_keys s of
           Inl e \<Rightarrow> Inl e
         | Inr ks \<Rightarrow>
             (case currentRows s locs (sort ks) of
                Inl e \<Rightarrow> Inl e
              | Inr rows \<Rightarrow> makeTable ''current-status'' currentHeaders rows st))"

text \<open>The \<^verbatim>\<open>try\<close> block and its \<^verbatim>\<open>catch\<close>: the rows, and the line logged on an exception.\<close>

definition buildHistory :: "jsval \<Rightarrow> jsval list list \<times> string list" where
  "buildHistory data =
     (let s = js_or (own data ''status_by_team'') (JObj [])
      in case Object_keys s of
           Inl e \<Rightarrow> ([], [''Error building status history rows''])
         | Inr ks \<Rightarrow>
             (case histTeams s (sort ks) of
                (rows, None) \<Rightarrow> (rows, [])
              | (rows, Some e) \<Rightarrow> (rows, [''Error building status history rows''])))"

definition logHistory :: "jsval \<Rightarrow> page \<Rightarrow> error + page" where
  "logHistory data st = Inr (st\<lparr>console := console st @ snd (buildHistory data)\<rparr>)"

definition renderHistory :: "jsval \<Rightarrow> page \<Rightarrow> error + page" where
  "renderHistory data st = makeTable ''status-history'' histHeaders (fst (buildHistory data)) st"

definition renderTransmissions :: "jsval \<Rightarrow> page \<Rightarrow> error + page" where
  "renderTransmissions data st =
     (case js_or (own data ''transmissions'') (JArr []) of
        JArr ts \<Rightarrow>
          (case txRows ts of
             Inl e \<Rightarrow> Inl e
           | Inr rows \<Rightarrow> makeTable ''transmissions'' txHeaders rows st)
      | _ \<Rightarrow> Inl TypeError)"

text \<open>The status line; \<open>now\<close> is \<^verbatim>\<open>(new Date()).toLocaleString()\<close>, the time of the call.\<close>

definition setLastUpdated :: "string \<Rightarrow> page \<Rightarrow> error + page" where
  "setLastUpdated now st =
     (case elements st ''last-updated'' of
        None \<Rightarrow> Inl TypeError
      | Some old \<Rightarrow>
          Inr (st\<lparr>elements := (elements st)(''last-updated'' \<mapsto> Text (''Last loaded: '' @ now))\<rparr>))"

text \<open>
  Running the steps in order: the result is the page and the exception that left
  \<^verbatim>\<open>renderState\<close>, if any; the steps after an exception do not run.
\<close>

fun steps :: "(page \<Rightarrow> error + page) list \<Rightarrow> page \<Rightarrow> page \<times> error option" where
  "steps [] st = (st, None)"
| "steps (f # fs) st = (case f st of Inl e \<Rightarrow> (st, Some e) | Inr st' \<Rightarrow> steps fs st')"

definition renderState :: "string \<Rightarrow> jsval \<Rightarrow> page \<Rightarrow> page \<times> error option" where
  "renderState now data st =
     (if \<not> truthy data then (st, None)
      else steps [renderCurrent data, logHistory data, renderHistory data,
                  renderTransmissions data, setLastUpdated now] st)"

section \<open>fetchState and refresh\<close>

text \<open>
  What \<^verbatim>\<open>fetch('/state')\<close> meets: a transport failure, or a response with its \<^verbatim>\<open>ok\<close> flag,
  its status text and its body, \<open>None\<close> when the body is not JSON (\<^verbatim>\<open>res.json()\<close> then
  fails). Every failure is caught, logged, and null is returned.
\<close>

datatype response = Transport_failure | Response bool string "jsval option"

definition fetchState :: "response \<Rightarrow> page \<Rightarrow> jsval \<times> page" where
  "fetchState r st =
     (let failed = (JNull, st\<lparr>console := console st @ [''fetchState failed'']\<rparr>)
      in case r of
           Transport_failure \<Rightarrow> failed
         | Response ok statusText body \<Rightarrow>
             if \<not> ok then failed
             else (case body of None \<Rightarrow> failed | Some v \<Rightarrow> (v, st)))"

definition refresh :: "string \<Rightarrow> response \<Rightarrow> page \<Rightarrow> page \<times> error option" where
  "refresh now r st =
     (let (data, st') = fetchState r st
      in if truthy data then renderState now data st' else (st', None))"

section \<open>Snapshots of the data model\<close>

text \<open>
  The parts of a snapshot as \<^verbatim>\<open>renderState\<close> reads them, and the snapshots of the data model:
  \<^verbatim>\<open>status_by_team\<close> is an object (or absent) whose values are arrays of events (a team
  whose value is null or absent has no history), an event being an object whose
  timestamp is a string (or absent).
\<close>

definition status_of :: "jsval \<Rightarrow> jsval" where
  "status_of data = js_or (own data ''status_by_team'') (JObj [])"

definition locs_of :: "jsval \<Rightarrow> jsval" where
  "locs_of data = js_or (own data ''location_by_team'') (JObj [])"









section \<open>An example\<close>



definition ex_page :: page where
  "ex_page = \<lparr>elements = [''current-status'' \<mapsto> Markup, ''status-history'' \<mapsto> Markup,
     ''transmissions'' \<mapsto> Markup, ''last-updated'' \<mapsto> Markup], console = []\<rparr>"


section \<open>The rows of Status History, one by one\<close>




section \<open>The steps as writes\<close>

text \<open>
  What a step of \<^verbatim>\<open>renderState\<close> does to the page, whatever the page: it throws, it
  replaces the content of one element (and throws when the page has no such element), or
  it logs. \<open>writes as ex\<close> are the contents that running the actions \<open>as\<close> leaves in the
  elements of a page whose elements are those of \<open>ex\<close>.
\<close>

datatype action = Fail error | Put string content | Log "string list"

fun act :: "action \<Rightarrow> page \<Rightarrow> error + page" where
  "act (Fail e) st = Inl e"
| "act (Put c v) st =
     (case elements st c of
        None \<Rightarrow> Inl TypeError
      | Some old \<Rightarrow> Inr (st\<lparr>elements := (elements st)(c \<mapsto> v)\<rparr>))"
| "act (Log l) st = Inr (st\<lparr>console := console st @ l\<rparr>)"

fun writes :: "action list \<Rightarrow> (string \<Rightarrow> bool) \<Rightarrow> string \<Rightarrow> content option" where
  "writes [] ex = Map.empty"
| "writes (Fail e # as) ex = Map.empty"
| "writes (Log l # as) ex = writes as ex"
| "writes (Put c v # as) ex = (if ex c then [c \<mapsto> v] ++ writes as ex else Map.empty)"

section \<open>Properties of formatTimestamp\<close>

subsection \<open>The year of a day\<close>

lemma DaysInYear_range: "365 \<le> DaysInYear y \<and> DaysInYear y \<le> 366"
  by (simp add: DaysInYear_def)

lemma DayFromYear_less: "DayFromYear y < DayFromYear (y + 1)"
  using DaysInYear_range [of y] by (simp add: DayFromYear_Suc)

lemma DayFromYear_mono: "y \<le> y' \<Longrightarrow> DayFromYear y \<le> DayFromYear y'"
proof (induction y' rule: int_ge_induct)
  case base
  show ?case by simp
next
  case (step i)
  then show ?case using DayFromYear_less [of i] by simp
qed

lemma year_upto_spec:
  "DayFromYear y \<le> d \<Longrightarrow>
   DayFromYear (year_upto y d) \<le> d \<and> d < DayFromYear (year_upto y d + 1)"
proof (induction y d rule: year_upto.induct)
  case (1 y d)
  show ?case
  proof (cases "DayFromYear (y + 1) \<le> d")
    case True
    then show ?thesis using "1.IH" by simp
  next
    case False
    then show ?thesis using "1.prems" by simp
  qed
qed

lemma year_unique:
  assumes "DayFromYear a \<le> d" "d < DayFromYear (a + 1)"
    and "DayFromYear b \<le> d" "d < DayFromYear (b + 1)"
  shows "a = b"
proof (rule ccontr)
  assume "a \<noteq> b"
  then consider "a + 1 \<le> b" | "b + 1 \<le> a" by linarith
  then show False
  proof cases
    case 1
    from DayFromYear_mono [OF this] assms show False by simp
  next
    case 2
    from DayFromYear_mono [OF this] assms show False by simp
  qed
qed

lemma DayFromYear_1970: "DayFromYear 1970 = 0"
  by (simp add: DayFromYear_def)

lemma DayFromYear_upper: "0 \<le> k \<Longrightarrow> DayFromYear (1970 + k) \<le> 366 * k"
proof (induction k rule: int_ge_induct)
  case base
  show ?case by (simp add: DayFromYear_1970)
next
  case (step i)
  have "DayFromYear (1970 + (i + 1)) = DayFromYear (1970 + i) + DaysInYear (1970 + i)"
    using DayFromYear_Suc [of "1970 + i"] by (simp add: add.assoc)
  then show ?case using step DaysInYear_range [of "1970 + i"] by simp
qed

lemma DayFromYear_lower: "0 \<le> k \<Longrightarrow> 365 * k \<le> DayFromYear (1970 + k)"
proof (induction k rule: int_ge_induct)
  case base
  show ?case by (simp add: DayFromYear_1970)
next
  case (step i)
  have "DayFromYear (1970 + (i + 1)) = DayFromYear (1970 + i) + DaysInYear (1970 + i)"
    using DayFromYear_Suc [of "1970 + i"] by (simp add: add.assoc)
  then show ?case using step DaysInYear_range [of "1970 + i"] by simp
qed

lemma DayFromYear_neg: "k \<le> 0 \<Longrightarrow> 366 * k \<le> DayFromYear (1970 + k) \<and> DayFromYear (1970 + k) \<le> 365 * k"
proof (induction k rule: int_le_induct)
  case base
  show ?case by (simp add: DayFromYear_1970)
next
  case (step i)
  have "DayFromYear (1970 + i) = DayFromYear (1970 + (i - 1)) + DaysInYear (1970 + (i - 1))"
    using DayFromYear_Suc [of "1970 + (i - 1)"] by (simp add: algebra_simps)
  then show ?case using step DaysInYear_range [of "1970 + (i - 1)"] by simp
qed

lemma year_estimate:
  "DayFromYear (1970 + (if 0 \<le> d then d div 366 else d div 365)) \<le> d"
proof (cases "0 \<le> d")
  case True
  then have "0 \<le> d div 366" by simp
  from DayFromYear_upper [OF this] have "DayFromYear (1970 + d div 366) \<le> 366 * (d div 366)" .
  also have "\<dots> \<le> d" by simp
  finally show ?thesis using True by simp
next
  case False
  then have "d div 365 \<le> 0" using div_neg_pos_less0 [of d 365] by simp
  from DayFromYear_neg [OF this] have "DayFromYear (1970 + d div 365) \<le> 365 * (d div 365)" by simp
  also have "\<dots> \<le> d" by simp
  finally show ?thesis using False by simp
qed

lemma YearFromDay_spec:
  "DayFromYear (YearFromDay d) \<le> d \<and> d < DayFromYear (YearFromDay d + 1)"
  unfolding YearFromDay_def by (rule year_upto_spec [OF year_estimate])

lemma YearFromDay_eq:
  assumes "0 \<le> k" "k < DaysInYear y"
  shows "YearFromDay (DayFromYear y + k) = y"
proof -
  have "DayFromYear y \<le> DayFromYear y + k" "DayFromYear y + k < DayFromYear (y + 1)"
    using assms by (simp_all add: DayFromYear_Suc)
  with YearFromDay_spec [of "DayFromYear y + k"] show ?thesis
    by (metis year_unique)
qed

subsection \<open>Month and date within the year\<close>

lemma month_cases:
  fixes m :: int
  assumes "1 \<le> m" "m \<le> 12"
  obtains "m = 1" | "m = 2" | "m = 3" | "m = 4" | "m = 5" | "m = 6"
    | "m = 7" | "m = 8" | "m = 9" | "m = 10" | "m = 11" | "m = 12"
proof -
  have "m = 1 \<or> m = 2 \<or> m = 3 \<or> m = 4 \<or> m = 5 \<or> m = 6
      \<or> m = 7 \<or> m = 8 \<or> m = 9 \<or> m = 10 \<or> m = 11 \<or> m = 12"
    using assms by presburger
  then show thesis using that by blast
qed

lemma month_date_roundtrip:
  assumes "1 \<le> m" "m \<le> 12" "1 \<le> d" "d \<le> DaysInMonth leap m"
  shows "MonthFromDay leap (DaysBeforeMonth leap (m - 1) + d - 1) = m - 1
    \<and> DateFromDay leap (DaysBeforeMonth leap (m - 1) + d - 1) = d
    \<and> 0 \<le> DaysBeforeMonth leap (m - 1) + d - 1
    \<and> DaysBeforeMonth leap (m - 1) + d - 1 < (if leap then 366 else 365)"
proof (cases leap)
  case True
  from assms(1,2) show ?thesis
    by (cases m rule: month_cases)
      (use assms(3,4) True in \<open>simp_all add: DaysInMonth_def MonthFromDay_def DateFromDay_def DaysBeforeMonth_def\<close>)
next
  case False
  from assms(1,2) show ?thesis
    by (cases m rule: month_cases)
      (use assms(3,4) False in \<open>simp_all add: DaysInMonth_def MonthFromDay_def DateFromDay_def DaysBeforeMonth_def\<close>)
qed

subsection \<open>Time within the day\<close>

lemma div_mod_decomp:
  fixes q r k :: int
  assumes "0 \<le> r" "r < k"
  shows "(q * k + r) div k = q" and "(q * k + r) mod k = r"
proof -
  have e: "q * k + r = r + q * k" by simp
  show "(q * k + r) div k = q" "(q * k + r) mod k = r"
    unfolding e using assms by (simp_all add: div_pos_pos_trivial mod_pos_pos_trivial)
qed

lemma time_fields:
  fixes h mi s :: int
  assumes "0 \<le> h" "h < 24" "0 \<le> mi" "mi < 60" "0 \<le> s" "s < 60"
  defines "tod \<equiv> MakeTime h mi s 0"
  shows "0 \<le> tod" "tod < msPerDay" "tod div 3600000 = h" "tod div 60000 mod 60 = mi"
    "tod div 1000 mod 60 = s" "tod mod 1000 = 0"
proof -
  show "0 \<le> tod" "tod < msPerDay"
    using assms by (simp_all add: MakeTime_def msPerDay_def)
  have "tod = h * 3600000 + (mi * 60000 + s * 1000)"
    by (simp add: tod_def MakeTime_def)
  then show "tod div 3600000 = h"
    using div_mod_decomp(1) [of "mi * 60000 + s * 1000" 3600000 h] assms by simp
  have a: "tod = (h * 60 + mi) * 60000 + s * 1000"
    by (simp add: tod_def MakeTime_def algebra_simps)
  have "tod div 60000 = h * 60 + mi"
    unfolding a using div_mod_decomp(1) [of "s * 1000" 60000 "h * 60 + mi"] assms by simp
  then show "tod div 60000 mod 60 = mi"
    using div_mod_decomp(2) [of mi 60 h] assms by simp
  have b: "tod = (h * 3600 + mi * 60 + s) * 1000 + 0"
    by (simp add: tod_def MakeTime_def algebra_simps)
  have c: "tod div 1000 = (h * 60 + mi) * 60 + s"
    unfolding b using div_mod_decomp(1) [of 0 1000 "h * 3600 + mi * 60 + s"] by (simp add: algebra_simps)
  show "tod div 1000 mod 60 = s"
    unfolding c using div_mod_decomp(2) [of s 60 "h * 60 + mi"] assms by simp
  show "tod mod 1000 = 0"
    unfolding b by simp
qed

subsection \<open>Digit strings\<close>

lemma digit_roundtrip:
  "is_digit c \<Longrightarrow> digit_val c < 10 \<and> digit_char (digit_val c) = c"
  by (auto simp add: is_digit_def digit_val_def digit_char_def)

lemma digit_not_letter: "is_digit c \<Longrightarrow> c \<noteq> CHR ''T'' \<and> c \<noteq> CHR ''Z''"
  by (auto simp add: is_digit_def)

lemma dec_val_snoc: "dec_val (ds @ [c]) = 10 * dec_val ds + digit_val c"
  by (simp add: dec_val_def)

lemma pad_dec_val: "list_all is_digit ds \<Longrightarrow> pad (length ds) (dec_val ds) = ds"
proof (induction ds rule: rev_induct)
  case Nil
  show ?case by simp
next
  case (snoc c ds)
  then have d: "digit_val c < 10" "digit_char (digit_val c) = c" and ih: "pad (length ds) (dec_val ds) = ds"
    using digit_roundtrip [of c] by simp_all
  have "(10 * dec_val ds + digit_val c) div 10 = dec_val ds"
    "(10 * dec_val ds + digit_val c) mod 10 = digit_val c"
    using d(1) by simp_all
  then show ?case
    by (simp add: dec_val_snoc d(2) ih)
qed

lemma dec_val_less: "list_all is_digit ds \<Longrightarrow> dec_val ds < 10 ^ length ds"
proof (induction ds rule: rev_induct)
  case Nil
  show ?case by (simp add: dec_val_def)
next
  case (snoc c ds)
  then have "digit_val c < 10" "dec_val ds < 10 ^ length ds"
    using digit_roundtrip [of c] by simp_all
  then show ?case
    by (simp add: dec_val_snoc)
qed

subsection \<open>Replacing the first occurrence of a character\<close>

lemma replace_first_char:
  "c \<notin> set a \<Longrightarrow> replace_first [c] r (a @ c # b) = a @ r @ b"
  by (induction a) (auto simp add: startsWith_def)

subsection \<open>What a match gives\<close>

lemma re_digits_Some:
  "re_digits n s = Some (a, r) \<Longrightarrow> length a = n \<and> list_all is_digit a \<and> s = a @ r"
  by (auto simp add: re_digits_def split: if_splits)

lemma re_lit_Some: "re_lit c s = Some r \<Longrightarrow> s = c # r"
  by (auto simp add: re_lit_def split: list.splits if_splits)

lemma ts_match_Some:
  assumes "ts_match s = Some (y, mo, d, h, mi, se)"
  shows "length y = 4 \<and> length mo = 2 \<and> length d = 2 \<and> length h = 2 \<and> length mi = 2
    \<and> length se = 2 \<and> list_all is_digit y \<and> list_all is_digit mo \<and> list_all is_digit d
    \<and> list_all is_digit h \<and> list_all is_digit mi \<and> list_all is_digit se
    \<and> s = y @ mo @ d @ ''T'' @ h @ mi @ se @ ''Z''"
  using assms unfolding ts_match_def
  by (auto split: Option.bind_splits if_splits dest!: re_digits_Some re_lit_Some)

subsection \<open>The ISO form of a real date\<close>

lemma DayFromYear_bound:
  assumes "100 \<le> y" "y \<le> 9999"
  shows "- 3000000 < DayFromYear y \<and> DayFromYear y < 3000000"
proof (cases "1970 \<le> y")
  case True
  then have "0 \<le> y - 1970" by simp
  from DayFromYear_upper [OF this] DayFromYear_lower [OF this] assms show ?thesis by simp
next
  case False
  then have "y - 1970 \<le> 0" by simp
  from DayFromYear_neg [OF this] assms show ?thesis by simp
qed

lemma toISOString_valid:
  fixes y m d h mi s :: nat
  assumes y: "100 \<le> y" "y \<le> 9999" and v: "valid_date y m d"
    and t: "h < 24" "mi < 60" "s < 60"
  shows "toISOString (Date_UTC (int y) (int m - 1) (int d) (int h) (int mi) (int s))
    = Inr (pad 4 y @ ''-'' @ pad 2 m @ ''-'' @ pad 2 d @ ''T''
         @ pad 2 h @ '':'' @ pad 2 mi @ '':'' @ pad 2 s @ ''.000Z'')"
proof -
  define leap where "leap = InLeapYear (int y)"
  define k where "k = DaysBeforeMonth leap (int m - 1) + int d - 1"
  define day where "day = DayFromYear (int y) + k"
  define tod where "tod = MakeTime (int h) (int mi) (int s) 0"
  have m: "1 \<le> int m" "int m \<le> 12" "1 \<le> int d" "int d \<le> DaysInMonth leap (int m)"
    using v by (simp_all add: valid_date_def leap_def)
  note md = month_date_roundtrip [OF m, folded k_def]
  have k: "0 \<le> k" "k < DaysInYear (int y)"
    using md by (simp_all add: DaysInYear_def leap_def)
  have mm: "(int m - 1) div 12 = 0" "(int m - 1) mod 12 = int m - 1"
    using m(1,2) by (simp_all add: div_pos_pos_trivial mod_pos_pos_trivial)
  have mk: "MakeDay (int y) (int m - 1) (int d) = day"
    by (simp add: MakeDay_def mm day_def k_def leap_def Let_def)
  have hb: "0 \<le> int h" "int h < 24" "0 \<le> int mi" "int mi < 60" "0 \<le> int s" "int s < 60"
    using t by simp_all
  note tf = time_fields [OF hb, folded tod_def]
  note tod = tf(1,2)
  have db: "- 3000366 < day" "day < 3000366"
    using DayFromYear_bound [of "int y"] y k by (simp_all add: day_def DaysInYear_def split: if_splits)
  have clip: "Date_UTC (int y) (int m - 1) (int d) (int h) (int mi) (int s)
      = Some (day * msPerDay + tod)"
  proof -
    have "\<not> (0 \<le> int y \<and> int y \<le> 99)"
      using y by simp
    moreover have "\<not> \<bar>day * msPerDay + tod\<bar> > 8640000000000000"
      using db tod unfolding msPerDay_def by linarith
    ultimately show ?thesis
      by (simp only: Date_UTC_def Let_def if_False mk MakeDate_def TimeClip_def tod_def [symmetric])
  qed
  have dm: "(day * msPerDay + tod) div msPerDay = day" "(day * msPerDay + tod) mod msPerDay = tod"
    using div_mod_decomp [OF tod] by simp_all
  have yr: "YearFromDay day = int y"
    unfolding day_def by (rule YearFromDay_eq [OF k])
  have iy: "iso_year (int y) = pad 4 y"
    using y by (simp add: iso_year_def)
  note f = tf(3-6)
  have p3: "pad 3 0 = ''000''"
    by (simp add: numeral_3_eq_3 digit_char_def)
  have mo: "nat (MonthFromDay leap k + 1) = m" "nat (DateFromDay leap k) = d"
    using md by simp_all
  have dwy: "day - DayFromYear (int y) = k"
    by (simp add: day_def)
  have "toISOString (Some (day * msPerDay + tod))
    = Inr (pad 4 y @ ''-'' @ pad 2 m @ ''-'' @ pad 2 d @ ''T''
         @ pad 2 h @ '':'' @ pad 2 mi @ '':'' @ pad 2 s @ ''.'' @ pad 3 0 @ ''Z'')"
    unfolding toISOString_def
    by (simp only: option.case Let_def dm yr dwy leap_def [symmetric] mo f iy nat_int nat_0)
  then show ?thesis
    unfolding clip p3 by simp
qed

lemma digits_no_letter:
  "list_all is_digit ds \<Longrightarrow> CHR ''T'' \<notin> set ds \<and> CHR ''Z'' \<notin> set ds"
  using digit_not_letter by (auto simp add: list_all_iff)

lemma pad_2: "pad 2 n = [digit_char (n div 10 mod 10), digit_char (n mod 10)]"
  by (simp add: numeral_2_eq_2)

lemma pad_3: "pad 3 n = digit_char (n div 10 div 10 mod 10) # pad 2 n"
  by (simp add: numeral_3_eq_3 numeral_2_eq_2)

lemma pad_4: "pad 4 n = digit_char (n div 10 div 10 div 10 mod 10) # pad 3 n"
proof -
  have "pad 4 n = pad (Suc 3) n" by simp
  then show ?thesis by (simp only: pad.simps pad_3 pad_2 append.simps)
qed

subsection \<open>Inputs that match\<close>

text \<open>The example of the specification, 15 January 2024 at 13:30:00.\<close>

lemma ex_match:
  "ts_match ''20240115T133000Z'' = Some (''2024'', ''01'', ''15'', ''13'', ''30'', ''00'')"
  by (simp add: ts_match_def re_digits_def re_lit_def is_digit_def)

lemma ex_vals: "dec_val ''2024'' = 2024" "dec_val ''01'' = 1" "dec_val ''15'' = 15"
  "dec_val ''13'' = 13" "dec_val ''30'' = 30" "dec_val ''00'' = 0"
  by (simp_all add: dec_val_def digit_val_def)

lemma ex_iso: "toISOString (Date_UTC 2024 0 15 13 30 0) = Inr ''2024-01-15T13:30:00.000Z''"
proof -
  have "valid_date 2024 1 15"
    by (simp add: valid_date_def DaysInMonth_def)
  from toISOString_valid [of 2024 1 15 13 30 0, OF _ _ this] show ?thesis
    by (simp add: pad_2 pad_3 pad_4 digit_char_def)
qed

text \<open>
  C1 (as stated): \<^verbatim>\<open>formatTimestamp("20240115T133000Z")\<close> is \<^verbatim>\<open>"2024-01-15 13:30:00 UTC"\<close>,
  with no fractional seconds. This fails: \<^verbatim>\<open>toISOString\<close> always writes the milliseconds,
  and only \<^verbatim>\<open>T\<close> and \<^verbatim>\<open>Z\<close> are replaced, so the result is
  \<^verbatim>\<open>"2024-01-15 13:30:00.000 UTC"\<close>.
\<close>

theorem formatTimestamp_example_counterexample:
  "formatTimestamp (JStr ''20240115T133000Z'') = Inr (JStr ''2024-01-15 13:30:00.000 UTC'')
   \<and> formatTimestamp (JStr ''20240115T133000Z'') \<noteq> Inr (JStr ''2024-01-15 13:30:00 UTC'')"
  by (simp add: formatTimestamp_def ex_match ex_vals ex_iso startsWith_def)

text \<open>
  C1 (amended): for every input that matches the pattern and names a real date and time
  of day (month 01 to 12, a day of that month, hour below 24, minute and second below 60)
  of a year from 0100 on, formatTimestamp returns \<^verbatim>\<open>YYYY-MM-DD HH:MM:SS.000 UTC\<close>, made
  of the digits of the input: the form of the claim with the milliseconds \<^verbatim>\<open>.000\<close> after
  the seconds.
\<close>

theorem formatTimestamp_valid_date:
  assumes m: "ts_match s = Some (y, mo, d, h, mi, se)"
    and y: "100 \<le> dec_val y"
    and v: "valid_date (dec_val y) (dec_val mo) (dec_val d)"
    and t: "dec_val h < 24" "dec_val mi < 60" "dec_val se < 60"
  shows "formatTimestamp (JStr s)
    = Inr (JStr (y @ ''-'' @ mo @ ''-'' @ d @ '' '' @ h @ '':'' @ mi @ '':'' @ se @ ''.000 UTC''))"
proof -
  note ms = ts_match_Some [OF m]
  have len: "length y = 4" "length mo = 2" "length d = 2" "length h = 2" "length mi = 2"
    "length se = 2"
    using ms by simp_all
  have dig: "list_all is_digit y" "list_all is_digit mo" "list_all is_digit d"
    "list_all is_digit h" "list_all is_digit mi" "list_all is_digit se"
    using ms by simp_all
  have s: "s = y @ mo @ d @ ''T'' @ h @ mi @ se @ ''Z''"
    using ms by simp
  have tr: "truthy (JStr s)"
    unfolding s by simp
  have y2: "dec_val y \<le> 9999"
    using dec_val_less [OF dig(1)] len(1) by simp
  have p: "pad 4 (dec_val y) = y" "pad 2 (dec_val mo) = mo" "pad 2 (dec_val d) = d"
    "pad 2 (dec_val h) = h" "pad 2 (dec_val mi) = mi" "pad 2 (dec_val se) = se"
    using dig [THEN pad_dec_val] unfolding len by simp_all
  define A where "A = y @ ''-'' @ mo @ ''-'' @ d"
  define B where "B = h @ '':'' @ mi @ '':'' @ se @ ''.000''"
  have iso: "toISOString (Date_UTC (int (dec_val y)) (int (dec_val mo) - 1) (int (dec_val d))
      (int (dec_val h)) (int (dec_val mi)) (int (dec_val se))) = Inr (A @ CHR ''T'' # B @ ''Z'')"
    unfolding toISOString_valid [OF y y2 v t] p A_def B_def by simp
  have nA: "CHR ''T'' \<notin> set A" "CHR ''Z'' \<notin> set A"
    using dig(1-3) [THEN digits_no_letter] by (simp_all add: A_def)
  have nB: "CHR ''Z'' \<notin> set B"
    using dig(4-6) [THEN digits_no_letter] by (simp add: B_def)
  have r1: "replace_first ''T'' '' '' (A @ CHR ''T'' # B @ ''Z'') = A @ '' '' @ B @ ''Z''"
    using replace_first_char [OF nA(1)] by simp
  have r2: "replace_first ''Z'' '' UTC'' (A @ '' '' @ B @ ''Z'') = A @ '' '' @ B @ '' UTC''"
    using replace_first_char [of "CHR ''Z''" "A @ '' '' @ B" "'' UTC''" "[]"] nA(2) nB by simp
  have "formatTimestamp (JStr s)
      = Inr (JStr (replace_first ''Z'' '' UTC'' (replace_first ''T'' '' '' (A @ CHR ''T'' # B @ ''Z''))))"
    unfolding formatTimestamp_def
    by (simp only: tr not_True_eq_False if_False jsval.case m option.case prod.case iso sum.case)
  then have "formatTimestamp (JStr s) = Inr (JStr (A @ '' '' @ B @ '' UTC''))"
    unfolding r1 r2 .
  then show ?thesis
    by (simp add: A_def B_def)
qed

theorem formatTimestamp_valid_date_witness:
  "ts_match ''20240229T235959Z'' = Some (''2024'', ''02'', ''29'', ''23'', ''59'', ''59'')
   \<and> 100 \<le> dec_val ''2024'' \<and> valid_date (dec_val ''2024'') (dec_val ''02'') (dec_val ''29'')
   \<and> dec_val ''23'' < 24 \<and> dec_val ''59'' < 60
   \<and> formatTimestamp (JStr ''20240229T235959Z'') = Inr (JStr ''2024-02-29 23:59:59.000 UTC'')"
proof -
  have m: "ts_match ''20240229T235959Z'' = Some (''2024'', ''02'', ''29'', ''23'', ''59'', ''59'')"
    by (simp add: ts_match_def re_digits_def re_lit_def is_digit_def)
  have n: "dec_val ''2024'' = 2024" "dec_val ''02'' = 2" "dec_val ''29'' = 29"
    "dec_val ''23'' = 23" "dec_val ''59'' = 59"
    by (simp_all add: dec_val_def digit_val_def)
  have y: "100 \<le> dec_val ''2024''" and t: "dec_val ''23'' < 24" "dec_val ''59'' < 60"
    unfolding n by simp_all
  have v: "valid_date (dec_val ''2024'') (dec_val ''02'') (dec_val ''29'')"
    unfolding n by (simp add: valid_date_def DaysInMonth_def InLeapYear_def)
  from formatTimestamp_valid_date [OF m y v t(1) t(2) t(2)] m y v t show ?thesis
    by simp
qed

subsection \<open>Inputs that do not match\<close>

text \<open>
  C2 (as stated): every input that does not match the pattern, null and non-string values
  included, is returned unchanged and formatTimestamp never throws. This fails: null is
  turned into the empty string by the guard \<^verbatim>\<open>if(!ts) return ''\<close>, and a truthy value that
  is not a string (here the number 20240115) has no \<^verbatim>\<open>match\<close> method, so the call throws.
\<close>

theorem formatTimestamp_unchanged_counterexample:
  "formatTimestamp JNull = Inr (JStr '''') \<and> formatTimestamp JNull \<noteq> Inr JNull
   \<and> formatTimestamp (JNum (Integer 20240115)) = Inl TypeError"
  by (simp add: formatTimestamp_def)

text \<open>
  C2 (amended): a falsy input (null, undefined, false, 0, NaN, the empty string) gives the
  empty string, and a string that does not match the pattern is returned unchanged; in
  both cases nothing is thrown.
\<close>

theorem formatTimestamp_passthrough:
  "(\<not> truthy v \<longrightarrow> formatTimestamp v = Inr (JStr ''''))
   \<and> (ts_match s = None \<longrightarrow> formatTimestamp (JStr s) = Inr (JStr s))"
  by (simp add: formatTimestamp_def)

theorem formatTimestamp_passthrough_witness:
  "\<not> truthy JNull \<and> formatTimestamp JNull = Inr (JStr '''')
   \<and> ts_match ''not-a-date'' = None
   \<and> formatTimestamp (JStr ''not-a-date'') = Inr (JStr ''not-a-date'')"
proof -
  have n: "ts_match ''not-a-date'' = None"
    by (simp add: ts_match_def re_digits_def is_digit_def)
  have f: "\<not> truthy JNull"
    by simp
  from formatTimestamp_passthrough [of JNull "''not-a-date''"] n f show ?thesis
    by simp
qed

section \<open>Properties of formatStatusCode\<close>

lemma dec_digit: "n < 10 \<Longrightarrow> dec n = [digit_char n]"
  by simp







section \<open>Properties of formatLocationStatus\<close>






subsection \<open>formatTimestamp returns on every string\<close>







section \<open>Properties of renderState\<close>

subsection \<open>Events and histories of the data model\<close>







subsection \<open>The rows of a snapshot of the data model\<close>







subsection \<open>The teams of a snapshot\<close>



subsection \<open>The steps of renderState\<close>



lemma makeTable_dom:
  "makeTable c hs rows a = Inr b \<Longrightarrow> (elements b i = None) = (elements a i = None)"
  by (auto simp add: makeTable_def split: option.splits if_splits)









subsection \<open>The example, evaluated\<close>











subsection \<open>Current Status and Status History\<close>







subsection \<open>Rows come from the keys of status_by_team\<close>


















section \<open>Properties of fetchState and refresh\<close>

text \<open>
  C8: on a transport failure or a response whose status is not a success, fetchState logs
  the error and returns null (it returns in every case: the \<^verbatim>\<open>try\<close> block encloses the whole
  body); refresh then renders nothing: it returns normally and the elements of the page are
  as they were.
\<close>

theorem fetch_failure_absorbed:
  assumes "r = Transport_failure \<or> (\<exists>statusText body. r = Response False statusText body)"
  shows "fetchState r st = (JNull, st\<lparr>console := console st @ [''fetchState failed'']\<rparr>)
    \<and> snd (refresh now r st) = None
    \<and> elements (fst (refresh now r st)) = elements st"
  using assms by (auto simp add: fetchState_def refresh_def)

theorem fetch_failure_absorbed_witness:
  "fetchState (Response False ''Internal Server Error'' None) ex_page
     = (JNull, ex_page\<lparr>console := console ex_page @ [''fetchState failed'']\<rparr>)
   \<and> snd (refresh ''now'' (Response False ''Internal Server Error'' None) ex_page) = None
   \<and> elements (fst (refresh ''now'' (Response False ''Internal Server Error'' None) ex_page))
     = elements ex_page
   \<and> fetchState Transport_failure ex_page
     = (JNull, ex_page\<lparr>console := console ex_page @ [''fetchState failed'']\<rparr>)"
  using fetch_failure_absorbed [of "Response False ''Internal Server Error'' None" ex_page "''now''"]
    fetch_failure_absorbed [of Transport_failure ex_page "''now''"]
  by simp

subsection \<open>A failure while building the rows of Status History\<close>















subsection \<open>Rendering twice\<close>

lemma writes_dom: "writes as ex i = Some v \<Longrightarrow> ex i"
  by (induction as ex rule: writes.induct) (auto split: if_splits)

lemma steps_writes:
  "elements (fst (steps (map act as) st)) = elements st ++ writes as (\<lambda>i. elements st i \<noteq> None)"
proof (induction as arbitrary: st)
  case Nil
  show ?case by simp
next
  case (Cons a as)
  show ?case
  proof (cases a)
    case (Fail e)
    then show ?thesis by simp
  next
    case (Log l)
    then show ?thesis using Cons.IH [of "st\<lparr>console := console st @ l\<rparr>"] by simp
  next
    case (Put c v)
    show ?thesis
    proof (cases "elements st c")
      case None
      then show ?thesis using Put by simp
    next
      case (Some old)
      define st' where "st' = st\<lparr>elements := (elements st)(c \<mapsto> v)\<rparr>"
      have ex: "(\<lambda>i. elements st' i \<noteq> None) = (\<lambda>i. elements st i \<noteq> None)"
        using Some by (auto simp add: st'_def)
      have "elements (fst (steps (map act (a # as)) st)) = elements (fst (steps (map act as) st'))"
        using Put Some by (simp add: st'_def)
      also have "\<dots> = elements st' ++ writes as (\<lambda>i. elements st i \<noteq> None)"
        by (rule Cons.IH [of st', unfolded ex])
      also have "\<dots> = elements st ++ writes (a # as) (\<lambda>i. elements st i \<noteq> None)"
        using Put Some by (auto simp add: st'_def fun_eq_iff map_add_def split: option.splits)
      finally show ?thesis .
    qed
  qed
qed

lemma writes_last:
  "i \<noteq> c \<Longrightarrow> writes (as @ [Put c v]) ex i = writes (as @ [Put c v']) ex i"
  by (induction as ex rule: writes.induct) (simp_all add: map_add_def)

lemma makeTable_act: "makeTable c hs rows = act (Put c (Table hs (map (map td) rows)))"
  by (rule ext) (simp add: makeTable_def)

lemma renderCurrent_act: "\<exists>a. renderCurrent data = act a"
proof (cases "Object_keys (status_of data)")
  case (Inl e)
  then have "renderCurrent data = act (Fail e)"
    by (intro ext) (simp add: renderCurrent_def status_of_def [symmetric])
  then show ?thesis ..
next
  case (Inr ks)
  show ?thesis
  proof (cases "currentRows (status_of data) (locs_of data) (sort ks)")
    case (Inl e)
    then have "renderCurrent data = act (Fail e)"
      using Inr
      by (intro ext) (simp add: renderCurrent_def status_of_def [symmetric] locs_of_def [symmetric])
    then show ?thesis ..
  next
    case rows: (Inr rows)
    then have "renderCurrent data = act (Put ''current-status'' (Table currentHeaders (map (map td) rows)))"
      using Inr
      by (intro ext)
        (simp add: renderCurrent_def status_of_def [symmetric] locs_of_def [symmetric] makeTable_act)
    then show ?thesis ..
  qed
qed

lemma logHistory_act: "logHistory data = act (Log (snd (buildHistory data)))"
  by (rule ext) (simp add: logHistory_def)

lemma renderHistory_act:
  "renderHistory data
     = act (Put ''status-history'' (Table histHeaders (map (map td) (fst (buildHistory data)))))"
  by (rule ext) (simp add: renderHistory_def makeTable_act)

lemma renderTransmissions_act: "\<exists>a. renderTransmissions data = act a"
proof -
  have "renderTransmissions data = act (Fail TypeError)
    \<or> (\<exists>e. renderTransmissions data = act (Fail e))
    \<or> (\<exists>rows. renderTransmissions data = act (Put ''transmissions'' (Table txHeaders (map (map td) rows))))"
    by (cases "js_or (own data ''transmissions'') (JArr [])")
      (auto simp add: renderTransmissions_def fun_eq_iff makeTable_act split: sum.splits)
  then show ?thesis by blast
qed

lemma setLastUpdated_act:
  "setLastUpdated now = act (Put ''last-updated'' (Text (''Last loaded: '' @ now)))"
  by (rule ext) (simp only: setLastUpdated_def act.simps)

lemma renderState_actions:
  assumes "truthy data"
  shows "\<exists>as. \<forall>now st. renderState now data st
     = steps (map act (as @ [Put ''last-updated'' (Text (''Last loaded: '' @ now))])) st"
proof -
  obtain a1 a4 where a: "renderCurrent data = act a1" "renderTransmissions data = act a4"
    using renderCurrent_act renderTransmissions_act by blast
  have "\<forall>now st. renderState now data st
     = steps (map act ([a1, Log (snd (buildHistory data)),
         Put ''status-history'' (Table histHeaders (map (map td) (fst (buildHistory data)))), a4]
         @ [Put ''last-updated'' (Text (''Last loaded: '' @ now))])) st"
    using assms
    by (simp add: renderState_def a logHistory_act renderHistory_act setLastUpdated_act)
  then show ?thesis by blast
qed

lemma render_twice:
  assumes "i \<noteq> ''last-updated''"
  shows "elements (fst (renderState now' data (fst (renderState now data st)))) i
    = elements (fst (renderState now data st)) i"
proof (cases "truthy data")
  case False
  then show ?thesis by (simp add: renderState_def)
next
  case True
  from renderState_actions [OF True] obtain as where
    r: "\<And>now st. renderState now data st
       = steps (map act (as @ [Put ''last-updated'' (Text (''Last loaded: '' @ now))])) st"
    by blast
  define ex where "ex = (\<lambda>i. elements st i \<noteq> None)"
  define p where "p = fst (renderState now data st)"
  define W where "W = writes (as @ [Put ''last-updated'' (Text (''Last loaded: '' @ now))]) ex"
  define W' where "W' = writes (as @ [Put ''last-updated'' (Text (''Last loaded: '' @ now'))]) ex"
  have p: "elements p = elements st ++ W"
    unfolding p_def r W_def ex_def by (rule steps_writes)
  have e: "(\<lambda>i. elements p i \<noteq> None) = ex"
    using writes_dom [of _ ex] by (auto simp add: p map_add_def ex_def W_def split: option.splits)
  have q: "elements (fst (renderState now' data p)) = elements p ++ W'"
    unfolding r W'_def e [symmetric] by (rule steps_writes)
  have "W' i = W i"
    unfolding W_def W'_def by (rule writes_last [OF assms])
  then have "(elements p ++ W') i = elements p i"
    by (simp add: p map_add_def split: option.splits)
  then show ?thesis
    unfolding q p_def [symmetric] by simp
qed

end
